theory Spec2Isabelle
  imports
    Complex_Main
    "HOL-Library.Char_ord"
    "HOL-Library.List_Lexorder"
    "HOL-Library.Product_Lexorder"
begin

section \<open>Time values and their text forms\<close>

text \<open>
  The tables keep timestamps as TEXT. Every write path of \<^verbatim>\<open>app.py\<close> stores the
  \<^verbatim>\<open>isoformat()\<close> of a naive datetime, so a column value is modelled by the datetime whose
  ISO text is stored, and the text forms the queries compare are functions of it.
  A calendar date is the triple (year, month, day); with the lexicographic order on
  products this is the order of Python's \<^verbatim>\<open>date\<close> objects.
\<close>

type_synonym date = "nat \<times> nat \<times> nat"

record datetime =
  dt_date :: date
  hour :: nat
  minute :: nat
  second :: nat
  microsecond :: nat

definition digit :: "nat \<Rightarrow> char" where
  "digit n = ''0123456789'' ! (n mod 10)"

definition pad2 :: "nat \<Rightarrow> string" where
  "pad2 n = [digit (n div 10), digit n]"

definition pad4 :: "nat \<Rightarrow> string" where
  "pad4 n = [digit (n div 1000), digit (n div 100), digit (n div 10), digit n]"

definition pad6 :: "nat \<Rightarrow> string" where
  "pad6 n = [digit (n div 100000), digit (n div 10000), digit (n div 1000),
             digit (n div 100), digit (n div 10), digit n]"

text \<open>\<^verbatim>\<open>date.isoformat()\<close>: YYYY-MM-DD.\<close>

definition iso_date :: "date \<Rightarrow> string" where
  "iso_date d = (case d of (y, m, dd) \<Rightarrow> pad4 y @ ''-'' @ pad2 m @ ''-'' @ pad2 dd)"

definition hms :: "datetime \<Rightarrow> string" where
  "hms t = pad2 (hour t) @ '':'' @ pad2 (minute t) @ '':'' @ pad2 (second t)"

text \<open>\<^verbatim>\<open>datetime.isoformat()\<close>: the separator is the letter T; the fraction is printed
  only when the microseconds are not zero.\<close>

definition isoformat :: "datetime \<Rightarrow> string" where
  "isoformat t =
     iso_date (dt_date t) @ ''T'' @ hms t @
     (if microsecond t = 0 then [] else ''.'' @ pad6 (microsecond t))"

text \<open>SQLite's \<^verbatim>\<open>datetime(X)\<close> on a stored ISO text: YYYY-MM-DD HH:MM:SS, with a space as
  separator and the fraction of the second cut off.\<close>

definition sqlite_datetime :: "datetime \<Rightarrow> string" where
  "sqlite_datetime t = iso_date (dt_date t) @ '' '' @ hms t"

definition is_leap :: "nat \<Rightarrow> bool" where
  "is_leap y = (y mod 4 = 0 \<and> (y mod 100 \<noteq> 0 \<or> y mod 400 = 0))"

definition days_in_month :: "nat \<Rightarrow> nat \<Rightarrow> nat" where
  "days_in_month y m =
     (if m = 2 then (if is_leap y then 29 else 28)
      else if m = 4 \<or> m = 6 \<or> m = 9 \<or> m = 11 then 30 else 31)"

definition next_day :: "date \<Rightarrow> date" where
  "next_day d = (case d of (y, m, dd) \<Rightarrow>
     if dd < days_in_month y m then (y, m, dd + 1)
     else if m < 12 then (y, m + 1, 1)
     else (y + 1, 1, 1))"

text \<open>SQLite's \<^verbatim>\<open>datetime(X, '+1 day')\<close> on the ISO text of a date.\<close>

definition sqlite_datetime_plus_day :: "date \<Rightarrow> string" where
  "sqlite_datetime_plus_day d = iso_date (next_day d) @ '' 00:00:00''"

text \<open>\<^verbatim>\<open>datetime.combine(start, time.min).isoformat()\<close>.\<close>

definition combine_min_iso :: "date \<Rightarrow> string" where
  "combine_min_iso d = iso_date d @ ''T00:00:00''"

text \<open>The proleptic Gregorian ordinal of a date (\<^verbatim>\<open>date.toordinal()\<close>), and the
  microseconds of a datetime counted from the start of ordinal 0.\<close>

definition toordinal :: "date \<Rightarrow> int" where
  "toordinal d = (case d of (y, m, dd) \<Rightarrow>
     (let y1 = int y - 1 in
      y1 * 365 + y1 div 4 - y1 div 100 + y1 div 400
      + int (sum_list (map (days_in_month y) [1..<m])) + int dd))"

definition to_usec :: "datetime \<Rightarrow> int" where
  "to_usec t =
     (((toordinal (dt_date t) * 24 + int (hour t)) * 60 + int (minute t)) * 60
        + int (second t)) * 1000000 + int (microsecond t)"

text \<open>\<^verbatim>\<open>(a - b).total_seconds()\<close>, in exact arithmetic.\<close>

definition total_seconds :: "datetime \<Rightarrow> datetime \<Rightarrow> real" where
  "total_seconds a b = real_of_int (to_usec a - to_usec b) / 1000000"

text \<open>The WHERE clause shared by \<^verbatim>\<open>approvals_view\<close> and \<^verbatim>\<open>reports_view\<close>:
  \<^verbatim>\<open>datetime(p.clock_in) >= ? AND datetime(p.clock_in) < datetime(?,'+1 day')\<close>
  with the parameters \<^verbatim>\<open>datetime.combine(start, time.min).isoformat()\<close> and
  \<^verbatim>\<open>end.isoformat()\<close>. Both sides are TEXT, compared byte by byte.\<close>

definition in_range :: "date \<Rightarrow> date \<Rightarrow> datetime \<Rightarrow> bool" where
  "in_range d_from d_to t =
     (combine_min_iso d_from \<le> sqlite_datetime t
      \<and> sqlite_datetime t < sqlite_datetime_plus_day d_to)"

section \<open>Tables\<close>

datatype role = Admin | Manager | Employee

record user =
  u_id :: int
  username :: string
  full_name :: string
  password_hash :: string
  role :: role
  hourly_rate :: real
  pin :: "string option"

record punch =
  p_id :: int
  user_id :: int
  clock_in :: datetime
  clock_out :: "datetime option"
  p_note :: "string option"
  p_location :: "string option"
  approved :: int

text \<open>The database: the tables \<open>users\<close> and \<open>punches\<close>, each a list of rows in
  insertion order, with the AUTOINCREMENT counter of each table. The table \<open>shifts\<close> is
  read and written by \<^verbatim>\<open>schedule_view\<close> alone and is left out.\<close>

record db =
  users :: "user list"
  punches :: "punch list"
  users_seq :: int
  punches_seq :: int

text \<open>Exceptions the handlers can meet: a malformed number or timestamp text, a number
  outside SQLite's 64-bit INTEGER, a violated table constraint.\<close>

datatype error = ValueError | OverflowError | IntegrityError

text \<open>A text input after the conversion the handler applies to it: empty (falsy), not
  convertible (the conversion raises), or converted to a value.\<close>

datatype 'a field = Blank | Malformed | Given 'a

definition init_db :: db where
  "init_db = \<lparr>users = [], punches = [], users_seq = 0, punches_seq = 0\<rparr>"

text \<open>\<^verbatim>\<open>INSERT INTO users\<close>: \<open>username\<close> is UNIQUE; \<open>pin\<close> carries no constraint.\<close>

definition insert_user ::
  "db \<Rightarrow> string \<Rightarrow> string \<Rightarrow> string \<Rightarrow> role \<Rightarrow> real \<Rightarrow> string option \<Rightarrow> error + db" where
  "insert_user d un fn ph r rate pn =
     (if un \<in> set (map username (users d)) then Inl IntegrityError
      else Inr (d\<lparr>users := users d @
                    [\<lparr>u_id = users_seq d + 1, username = un, full_name = fn,
                      password_hash = ph, role = r, hourly_rate = rate, pin = pn\<rparr>],
                  users_seq := users_seq d + 1\<rparr>))"

text \<open>\<^verbatim>\<open>ensure_seed_admin\<close>; \<open>sha\<close> stands for \<^verbatim>\<open>hash_pw\<close> (SHA-256 in hex).\<close>

definition ensure_seed_admin :: "(string \<Rightarrow> string) \<Rightarrow> db \<Rightarrow> db" where
  "ensure_seed_admin sha d =
     (if users d = [] then
        d\<lparr>users :=
            [\<lparr>u_id = users_seq d + 1, username = ''admin'', full_name = ''System Admin'',
              password_hash = sha ''admin123'', role = Admin, hourly_rate = 0,
              pin = Some ''0000''\<rparr>,
             \<lparr>u_id = users_seq d + 2, username = ''anna'', full_name = ''Anna Andersson'',
              password_hash = sha ''chef123'', role = Manager, hourly_rate = 165,
              pin = Some ''1111''\<rparr>,
             \<lparr>u_id = users_seq d + 3, username = ''erik'', full_name = ''Erik Ek'',
              password_hash = sha ''server123'', role = Employee, hourly_rate = 145,
              pin = Some ''2222''\<rparr>],
          users_seq := users_seq d + 3\<rparr>
      else d)"

section \<open>Punch clock (\<^verbatim>\<open>clock_view\<close>)\<close>

datatype clock_button = Stampla_IN | Stampla_UT

text \<open>\<^verbatim>\<open>SELECT id ... WHERE user_id=? AND clock_out IS NULL ORDER BY id DESC LIMIT 1\<close>.\<close>

definition open_punches :: "db \<Rightarrow> int \<Rightarrow> punch list" where
  "open_punches d uid = filter (\<lambda>p. user_id p = uid \<and> clock_out p = None) (punches d)"

definition active_punch :: "db \<Rightarrow> int \<Rightarrow> int option" where
  "active_punch d uid =
     (case open_punches d uid of
        [] \<Rightarrow> None
      | p # ps \<Rightarrow> Some (fold max (map p_id ps) (p_id p)))"

definition coalesce :: "string option \<Rightarrow> string" where
  "coalesce s = (case s of None \<Rightarrow> [] | Some t \<Rightarrow> t)"

text \<open>The text clock-out appends: a newline and the input, or nothing for an empty input.\<close>

definition appended :: "string \<Rightarrow> string" where
  "appended s = (if s = [] then [] else CHR 0x0A # s)"

definition close_punch :: "datetime \<Rightarrow> string \<Rightarrow> string \<Rightarrow> punch \<Rightarrow> punch" where
  "close_punch now nt loc p =
     p\<lparr>clock_out := Some now,
       p_note := Some (coalesce (p_note p) @ appended nt),
       p_location := Some (coalesce (p_location p) @ appended loc)\<rparr>"

text \<open>One run of \<^verbatim>\<open>clock_view\<close> for the logged-in user \<open>uid\<close> with the button that was
  pressed. Only one of the two buttons is drawn: Stampla UT when the user has an open
  punch, Stampla IN otherwise; a press of the button that is not drawn does nothing.\<close>

definition clock_view ::
  "db \<Rightarrow> int \<Rightarrow> string \<Rightarrow> string \<Rightarrow> clock_button \<Rightarrow> datetime \<Rightarrow> error + db" where
  "clock_view d uid nt loc pressed now =
     (case active_punch d uid of
        Some punch_id \<Rightarrow>
          (if pressed = Stampla_UT then
             Inr (d\<lparr>punches :=
                      map (\<lambda>p. if p_id p = punch_id then close_punch now nt loc p else p)
                          (punches d)\<rparr>)
           else Inr d)
      | None \<Rightarrow>
          (if pressed = Stampla_IN then
             Inr (d\<lparr>punches := punches d @
                      [\<lparr>p_id = punches_seq d + 1, user_id = uid, clock_in = now,
                        clock_out = None, p_note = Some nt, p_location = Some loc,
                        approved = 0\<rparr>],
                    punches_seq := punches_seq d + 1\<rparr>)
           else Inr d))"

section \<open>Approve and adjust (\<^verbatim>\<open>approvals_view\<close>)\<close>

definition int64 :: "int \<Rightarrow> bool" where
  "int64 i = (- (2 ^ 63) \<le> i \<and> i < 2 ^ 63)"

definition update_punch :: "int \<Rightarrow> (punch \<Rightarrow> punch) \<Rightarrow> punch list \<Rightarrow> punch list" where
  "update_punch i f ps = map (\<lambda>p. if p_id p = i then f p else p) ps"

text \<open>\<^verbatim>\<open>int(sel_id)\<close> and \<^verbatim>\<open>pd.to_datetime(x)\<close> on a text input that is not empty.\<close>

definition to_int :: "int field \<Rightarrow> error + int" where
  "to_int s = (case s of Given i \<Rightarrow> Inr i | _ \<Rightarrow> Inl ValueError)"

definition to_datetime :: "datetime field \<Rightarrow> error + datetime" where
  "to_datetime s = (case s of Given t \<Rightarrow> Inr t | _ \<Rightarrow> Inl ValueError)"

text \<open>\<^verbatim>\<open>UPDATE punches SET ... WHERE id=?\<close>: binding an id outside 64 bits raises.\<close>

definition execute_update ::
  "int \<Rightarrow> (punch \<Rightarrow> punch) \<Rightarrow> punch list \<Rightarrow> error + punch list" where
  "execute_update i f ps = (if int64 i then Inr (update_punch i f ps) else Inl OverflowError)"

definition and_then :: "error + 'a \<Rightarrow> ('a \<Rightarrow> error + 'b) \<Rightarrow> error + 'b" where
  "and_then r f = (case r of Inl e \<Rightarrow> Inl e | Inr x \<Rightarrow> f x)"

text \<open>The body of the handler of the button Spara andring, run when the row id is not
  empty: up to three UPDATE statements in one transaction, their arguments evaluated in
  the order of the source. Any exception rolls the transaction back and is reported, so
  the result is either the error or the database after all the statements.\<close>

definition adjust ::
  "db \<Rightarrow> int field \<Rightarrow> datetime field \<Rightarrow> datetime field \<Rightarrow> bool \<Rightarrow> error + db" where
  "adjust d sel_id new_in new_out approve =
     (if sel_id = Blank then Inr d
      else
        and_then
          (if new_in = Blank then Inr (punches d)
           else and_then (to_datetime new_in) (\<lambda>t.
                and_then (to_int sel_id) (\<lambda>i.
                execute_update i (\<lambda>p. p\<lparr>clock_in := t\<rparr>) (punches d))))
          (\<lambda>ps1.
        and_then
          (if new_out = Blank then Inr ps1
           else and_then (to_datetime new_out) (\<lambda>t.
                and_then (to_int sel_id) (\<lambda>i.
                execute_update i (\<lambda>p. p\<lparr>clock_out := Some t\<rparr>) ps1)))
          (\<lambda>ps2.
        and_then (to_int sel_id) (\<lambda>i.
        and_then (execute_update i (\<lambda>p. p\<lparr>approved := (if approve then 1 else 0)\<rparr>) ps2)
          (\<lambda>ps3. Inr (d\<lparr>punches := ps3\<rparr>))))))"

text \<open>\<^verbatim>\<open>approvals_view\<close>: the role gate, the listing of the range (the page stops when it
  is empty), then the handler.\<close>

definition approvals_view ::
  "db \<Rightarrow> role \<Rightarrow> date \<Rightarrow> date \<Rightarrow> int field \<Rightarrow> datetime field \<Rightarrow> datetime field \<Rightarrow> bool
     \<Rightarrow> error + db" where
  "approvals_view d r d_from d_to sel_id new_in new_out approve =
     (if r \<noteq> Manager \<and> r \<noteq> Admin then Inr d
      else if filter (\<lambda>p. in_range d_from d_to (clock_in p)) (punches d) = [] then Inr d
      else adjust d sel_id new_in new_out approve)"

section \<open>Staff register (\<^verbatim>\<open>staff_view\<close>)\<close>

datatype staff_mode = Ny | Uppdatera

definition or_none :: "string \<Rightarrow> string option" where
  "or_none s = (if s = [] then None else Some s)"

definition staff_view ::
  "(string \<Rightarrow> string) \<Rightarrow> db \<Rightarrow> role \<Rightarrow> staff_mode \<Rightarrow> string \<Rightarrow> string \<Rightarrow> role \<Rightarrow> real
     \<Rightarrow> string \<Rightarrow> string \<Rightarrow> error + db" where
  "staff_view sha d acting mode un fn r hourly pn pw =
     (if acting \<noteq> Admin then Inr d
      else if mode = Ny then
        insert_user d un fn (sha (if pw = [] then ''changeme'' else pw)) r hourly (or_none pn)
      else if pw \<noteq> [] then
        Inr (d\<lparr>users := map (\<lambda>u. if username u = un
                   then u\<lparr>full_name := fn, role := r, hourly_rate := hourly,
                          pin := or_none pn, password_hash := sha pw\<rparr>
                   else u) (users d)\<rparr>)
      else
        Inr (d\<lparr>users := map (\<lambda>u. if username u = un
                   then u\<lparr>full_name := fn, role := r, hourly_rate := hourly,
                          pin := or_none pn\<rparr>
                   else u) (users d)\<rparr>))"

section \<open>Reports (\<^verbatim>\<open>reports_view\<close>)\<close>

text \<open>Hours are floating-point numbers in the program; the model computes with exact
  reals. \<^verbatim>\<open>round(2)\<close> rounds to the nearest hundredth, a tie to the even neighbour.\<close>

definition round_half_even :: "real \<Rightarrow> int" where
  "round_half_even x =
     (let f = \<lfloor>x\<rfloor>; r = x - of_int f
      in if r < 1 / 2 then f else if 1 / 2 < r then f + 1
         else if even f then f else f + 1)"

definition round2 :: "real \<Rightarrow> real" where
  "round2 x = of_int (round_half_even (x * 100)) / 100"

text \<open>\<^verbatim>\<open>LEFT JOIN users u ON p.user_id=u.id\<close>: \<open>id\<close> is the primary key of \<open>users\<close>, so a
  punch joins with at most one user.\<close>

definition find_user :: "db \<Rightarrow> int \<Rightarrow> user option" where
  "find_user d uid = find (\<lambda>u. u_id u = uid) (users d)"

definition select_punches :: "db \<Rightarrow> date \<Rightarrow> date \<Rightarrow> (punch \<times> user option) list" where
  "select_punches d d_from d_to =
     map (\<lambda>p. (p, find_user d (user_id p)))
         (filter (\<lambda>p. in_range d_from d_to (clock_in p)) (punches d))"

text \<open>The column \<open>hours\<close>: the difference of the two timestamps in hours, 0 where the
  clock-out is missing (\<^verbatim>\<open>fillna(0)\<close>), rounded to two decimals.\<close>

definition punch_hours :: "punch \<Rightarrow> real" where
  "punch_hours p =
     (case clock_out p of
        None \<Rightarrow> round2 0
      | Some t \<Rightarrow> round2 (total_seconds t (clock_in p) / 3600))"

text \<open>\<^verbatim>\<open>groupby\<close> drops the rows whose key is missing: the punches without a user.\<close>

definition keyed_rows :: "(punch \<times> user option) list \<Rightarrow> (punch \<times> user) list" where
  "keyed_rows rows =
     concat (map (\<lambda>r. case snd r of None \<Rightarrow> [] | Some u \<Rightarrow> [(fst r, u)]) rows)"

definition row_key :: "punch \<times> user \<Rightarrow> string \<times> date" where
  "row_key r = (full_name (snd r), dt_date (clock_in (fst r)))"

text \<open>The groups come out once each, in the order of their keys.\<close>

definition group_keys :: "(punch \<times> user) list \<Rightarrow> (string \<times> date) list" where
  "group_keys rows = sort (remdups (map row_key rows))"

definition group_rows :: "string \<times> date \<Rightarrow> (punch \<times> user) list \<Rightarrow> (punch \<times> user) list" where
  "group_rows k rows = filter (\<lambda>r. row_key r = k) rows"

record daily =
  d_full_name :: string
  d_date :: date
  d_hours :: real
  d_hourly_rate :: real
  d_ot_hours :: real
  d_reg_hours :: real
  d_pay :: real

definition daily_row :: "string \<times> date \<Rightarrow> (punch \<times> user) list \<Rightarrow> daily" where
  "daily_row k g =
     (let h = sum_list (map (\<lambda>r. punch_hours (fst r)) g);
          rate = Max (set (map (\<lambda>r. hourly_rate (snd r)) g));
          ot = max 0 (h - 8);
          reg = h - ot
      in \<lparr>d_full_name = fst k, d_date = snd k, d_hours = h, d_hourly_rate = rate,
          d_ot_hours = ot, d_reg_hours = reg,
          d_pay = reg * rate + ot * rate * (3 / 2)\<rparr>)"

definition reports_view :: "db \<Rightarrow> date \<Rightarrow> date \<Rightarrow> daily list" where
  "reports_view d d_from d_to =
     (let rows = keyed_rows (select_punches d d_from d_to)
      in map (\<lambda>k. daily_row k (group_rows k rows)) (group_keys rows))"

section \<open>Sequences of ledger operations\<close>

datatype event =
    Clock int string string clock_button datetime
  | Approvals role date date "int field" "datetime field" "datetime field" bool

text \<open>One page run. A run that raises leaves the database as it was: the transaction is
  rolled back.\<close>

definition step :: "db \<Rightarrow> event \<Rightarrow> db" where
  "step d ev =
     (case (case ev of
              Clock uid nt loc b now \<Rightarrow> clock_view d uid nt loc b now
            | Approvals r d_from d_to sel_id new_in new_out approve \<Rightarrow>
                approvals_view d r d_from d_to sel_id new_in new_out approve) of
        Inl e \<Rightarrow> d
      | Inr d' \<Rightarrow> d')"

fun run :: "db \<Rightarrow> event list \<Rightarrow> db" where
  "run d [] = d"
| "run d (ev # evs) = run (step d ev) evs"

section \<open>Example states\<close>

text \<open>A timestamp typed as YYYY-MM-DD HH:MM, and a few states reached from the seeded
  database: Erik (user 3) clocks in, clocks out, and a manager approves the punch.\<close>

definition stamp :: "date \<Rightarrow> nat \<Rightarrow> nat \<Rightarrow> datetime" where
  "stamp d h m = \<lparr>dt_date = d, hour = h, minute = m, second = 0, microsecond = 0\<rparr>"

definition ex_seed :: db where
  "ex_seed = ensure_seed_admin (\<lambda>s. s) init_db"

definition ex_open :: db where
  "ex_open = run ex_seed [Clock 3 ''prep'' ''Bar'' Stampla_IN (stamp (2024, 3, 5) 9 0)]"

definition ex_closed :: db where
  "ex_closed = run ex_open [Clock 3 ''done'' [] Stampla_UT (stamp (2024, 3, 5) 18 0)]"

definition ex_approved :: db where
  "ex_approved =
     run ex_closed [Approvals Manager (2024, 3, 4) (2024, 3, 5) (Given 1) Blank Blank True]"

text \<open>The key of a report row.\<close>

definition daily_key :: "daily \<Rightarrow> string \<times> date" where
  "daily_key r = (d_full_name r, d_date r)"

text \<open>For stating what a report row sums: the punches behind the row with key \<open>k\<close> (in
  range, with an owner whose display name and whose clock-in date make up the key), and
  the current hourly rate of the owner of a punch.\<close>

definition group_punches :: "db \<Rightarrow> date \<Rightarrow> date \<Rightarrow> string \<times> date \<Rightarrow> punch list" where
  "group_punches d d_from d_to k =
     filter (\<lambda>p. in_range d_from d_to (clock_in p)
               \<and> (case find_user d (user_id p) of
                    None \<Rightarrow> False
                  | Some u \<Rightarrow> (full_name u, dt_date (clock_in p)) = k))
            (punches d)"

definition owner_rate :: "db \<Rightarrow> punch \<Rightarrow> real" where
  "owner_rate d p = (case find_user d (user_id p) of None \<Rightarrow> 0 | Some u \<Rightarrow> hourly_rate u)"



section \<open>The example states, evaluated\<close>

lemmas ex_defs = stamp_def ex_seed_def ex_open_def ex_closed_def ex_approved_def
  ensure_seed_admin_def init_db_def step_def clock_view_def active_punch_def open_punches_def
  close_punch_def coalesce_def appended_def approvals_view_def adjust_def update_punch_def int64_def
  and_then_def to_int_def to_datetime_def execute_update_def
  in_range_def combine_min_iso_def sqlite_datetime_def sqlite_datetime_plus_day_def iso_date_def hms_def pad2_def pad4_def digit_def next_day_def days_in_month_def is_leap_def

lemma ex_open_eq:
  "ex_open = ex_seed\<lparr>punches := [\<lparr>p_id = 1, user_id = 3, clock_in = stamp (2024, 3, 5) 9 0,
      clock_out = None, p_note = Some ''prep'', p_location = Some ''Bar'', approved = 0\<rparr>],
      punches_seq := 1\<rparr>"
  by (simp add: ex_defs)

lemma ex_closed_eq:
  "ex_closed = ex_seed\<lparr>punches := [\<lparr>p_id = 1, user_id = 3, clock_in = stamp (2024, 3, 5) 9 0,
      clock_out = Some (stamp (2024, 3, 5) 18 0), p_note = Some (''prep'' @ [CHR 0x0A] @ ''done''),
      p_location = Some ''Bar'', approved = 0\<rparr>],
      punches_seq := 1\<rparr>"
  by (simp add: ex_defs)

lemma ex_approved_eq:
  "ex_approved = ex_seed\<lparr>punches := [\<lparr>p_id = 1, user_id = 3, clock_in = stamp (2024, 3, 5) 9 0,
      clock_out = Some (stamp (2024, 3, 5) 18 0), p_note = Some (''prep'' @ [CHR 0x0A] @ ''done''),
      p_location = Some ''Bar'', approved = 1\<rparr>],
      punches_seq := 1\<rparr>"
  by (simp add: ex_defs)

section \<open>The open punches of a worker\<close>

lemma active_punch_None: "active_punch d uid = None \<longleftrightarrow> open_punches d uid = []"
  by (simp add: active_punch_def split: list.splits)

lemma update_punch_open_le:
  assumes "\<And>p. user_id (f p) = uid \<and> clock_out (f p) = None \<Longrightarrow> user_id p = uid \<and> clock_out p = None"
  shows "length (filter (\<lambda>p. user_id p = uid \<and> clock_out p = None) (update_punch i f ps))
         \<le> length (filter (\<lambda>p. user_id p = uid \<and> clock_out p = None) ps)"
proof (induction ps)
  case Nil
  then show ?case by (simp add: update_punch_def)
next
  case (Cons p ps)
  from assms[of p] Cons show ?case
    by (auto simp: update_punch_def)
qed


lemma clock_view_open_le:
  assumes "length (open_punches d u) \<le> 1" and "clock_view d uid nt loc b now = Inr d'"
  shows "length (open_punches d' u) \<le> 1"
proof (cases "active_punch d uid")
  case None
  then have e: "open_punches d uid = []"
    by (simp add: active_punch_None)
  show ?thesis
  proof (cases "b = Stampla_IN")
    case False
    with None assms show ?thesis by (simp add: clock_view_def)
  next
    case True
    with None assms(2) have p: "punches d' = punches d @
         [\<lparr>p_id = punches_seq d + 1, user_id = uid, clock_in = now,
           clock_out = None, p_note = Some nt, p_location = Some loc, approved = 0\<rparr>]"
      by (auto simp: clock_view_def)
    show ?thesis
    proof (cases "u = uid")
      case True
      with e p show ?thesis by (simp add: open_punches_def)
    next
      case False
      with assms(1) p show ?thesis by (simp add: open_punches_def)
    qed
  qed
next
  case (Some i)
  show ?thesis
  proof (cases "b = Stampla_UT")
    case False
    with Some assms show ?thesis by (simp add: clock_view_def)
  next
    case True
    with Some assms(2) have p: "punches d' = update_punch i (close_punch now nt loc) (punches d)"
      by (auto simp: clock_view_def update_punch_def)
    have "length (filter (\<lambda>p. user_id p = u \<and> clock_out p = None)
                    (update_punch i (close_punch now nt loc) (punches d)))
          \<le> length (filter (\<lambda>p. user_id p = u \<and> clock_out p = None) (punches d))"
      by (rule update_punch_open_le) (simp add: close_punch_def)
    with assms(1) p show ?thesis by (simp add: open_punches_def)
  qed
qed


lemma adjust_Given:
  assumes "adjust d (Given i) a c ap = Inr d'"
  shows "punches d' =
     update_punch i (\<lambda>p. p\<lparr>approved := (if ap then 1 else 0)\<rparr>)
       ((case c of Given t \<Rightarrow> update_punch i (\<lambda>p. p\<lparr>clock_out := Some t\<rparr>) | _ \<Rightarrow> (\<lambda>ps. ps))
          ((case a of Given t \<Rightarrow> update_punch i (\<lambda>p. p\<lparr>clock_in := t\<rparr>) | _ \<Rightarrow> (\<lambda>ps. ps))
             (punches d)))"
  using assms
  by (cases a; cases c)
     (auto simp: adjust_def and_then_def to_int_def to_datetime_def execute_update_def
           split: if_splits)

lemma adjust_open_le:
  assumes "length (open_punches d u) \<le> 1" and "adjust d sel a c ap = Inr d'"
  shows "length (open_punches d' u) \<le> 1"
proof (cases sel)
  case (Given i)
  let ?o = "\<lambda>ps. length (filter (\<lambda>p. user_id p = u \<and> clock_out p = None) ps)"
  define ps1 where "ps1 = (case a of Given t \<Rightarrow> update_punch i (\<lambda>p. p\<lparr>clock_in := t\<rparr>) | _ \<Rightarrow> (\<lambda>ps. ps)) (punches d)"
  define ps2 where "ps2 = (case c of Given t \<Rightarrow> update_punch i (\<lambda>p. p\<lparr>clock_out := Some t\<rparr>) | _ \<Rightarrow> (\<lambda>ps. ps)) ps1"
  have 1: "?o ps1 \<le> ?o (punches d)"
  proof (cases a)
    case (Given t)
    have "?o (update_punch i (\<lambda>p. p\<lparr>clock_in := t\<rparr>) (punches d)) \<le> ?o (punches d)"
      by (rule update_punch_open_le) simp
    with Given show ?thesis by (simp add: ps1_def)
  qed (simp_all add: ps1_def)
  have 2: "?o ps2 \<le> ?o ps1"
  proof (cases c)
    case (Given t)
    have "?o (update_punch i (\<lambda>p. p\<lparr>clock_out := Some t\<rparr>) ps1) \<le> ?o ps1"
      by (rule update_punch_open_le) simp
    with Given show ?thesis by (simp add: ps2_def)
  qed (simp_all add: ps2_def)
  have 3: "?o (update_punch i (\<lambda>p. p\<lparr>approved := (if ap then 1 else 0)\<rparr>) ps2) \<le> ?o ps2"
    by (rule update_punch_open_le) simp
  from assms(2) Given
  have "punches d' = update_punch i (\<lambda>p. p\<lparr>approved := (if ap then 1 else 0)\<rparr>) ps2"
    unfolding ps2_def ps1_def by (simp add: adjust_Given)
  with 1 2 3 assms(1) show ?thesis
    by (simp add: open_punches_def)
next
  case Blank with assms show ?thesis by (simp add: adjust_def)
next
  case Malformed with assms show ?thesis
    by (auto simp: adjust_def and_then_def to_int_def split: if_splits sum.splits)
qed


lemma step_open_le:
  assumes "length (open_punches d u) \<le> 1"
  shows "length (open_punches (step d ev) u) \<le> 1"
proof (cases ev)
  case (Clock uid nt loc b now)
  show ?thesis
  proof (cases "clock_view d uid nt loc b now")
    case (Inl e) with Clock assms show ?thesis by (simp add: step_def)
  next
    case (Inr d') with Clock clock_view_open_le[OF assms Inr] show ?thesis by (simp add: step_def)
  qed
next
  case (Approvals r f t sel a c ap)
  show ?thesis
  proof (cases "approvals_view d r f t sel a c ap")
    case (Inl e) with Approvals assms show ?thesis by (simp add: step_def)
  next
    case (Inr d')
    then have "d' = d \<or> adjust d sel a c ap = Inr d'"
      by (auto simp: approvals_view_def split: if_splits)
    then have "length (open_punches d' u) \<le> 1"
      using assms adjust_open_le by blast
    with Approvals Inr show ?thesis by (simp add: step_def)
  qed
qed

lemma run_open_le:
  "length (open_punches d u) \<le> 1 \<Longrightarrow> length (open_punches (run d evs) u) \<le> 1"
proof (induction evs arbitrary: d)
  case Nil
  then show ?case by simp
next
  case (Cons ev evs)
  from Cons.prems have "length (open_punches (step d ev) u) \<le> 1" by (rule step_open_le)
  then have "length (open_punches (run (step d ev) evs) u) \<le> 1" by (rule Cons.IH)
  then show ?case by simp
qed


section \<open>C5: one open punch per worker\<close>

text \<open>Counterexample to C5 as stated: Erik has an open punch and a clock-in arrives (the
  Stampla IN button of a page drawn before he clocked in). No error is raised; the run
  ends normally with the database as it was.\<close>

theorem clock_in_refused_counterexample:
  "clock_view ex_open 3 ''again'' ''Bar'' Stampla_IN (stamp (2024, 3, 5) 10 0) = Inr ex_open
   \<and> length (open_punches ex_open 3) = 1"
  by (simp add: ex_open_eq clock_view_def active_punch_def open_punches_def)

text \<open>C5 (amended): in every state reached from a database without punches by clock and
  approval page runs, each worker has at most one punch with a null clock-out; a clock-in
  for a worker who already has an open punch creates no record and raises nothing: the
  database is returned unchanged.\<close>

theorem one_open_punch_per_worker:
  "(punches d0 = [] \<longrightarrow> length (open_punches (run d0 evs) uid) \<le> 1)
   \<and> (open_punches d uid \<noteq> [] \<longrightarrow> clock_view d uid nt loc Stampla_IN now = Inr d)"
proof (intro conjI impI)
  assume "punches d0 = []"
  then have "length (open_punches d0 uid) \<le> 1" by (simp add: open_punches_def)
  then show "length (open_punches (run d0 evs) uid) \<le> 1" by (rule run_open_le)
next
  assume "open_punches d uid \<noteq> []"
  then obtain i where "active_punch d uid = Some i"
    using active_punch_None by (cases "active_punch d uid") auto
  then show "clock_view d uid nt loc Stampla_IN now = Inr d"
    by (simp add: clock_view_def)
qed

text \<open>Witness: two clock-ins in a row from the seeded database.\<close>

theorem one_open_punch_per_worker_witness:
  "length (open_punches (run ex_seed [Clock 3 ''prep'' ''Bar'' Stampla_IN (stamp (2024, 3, 5) 9 0),
        Clock 3 ''again'' ''Bar'' Stampla_IN (stamp (2024, 3, 5) 10 0)]) 3) \<le> 1
   \<and> clock_view ex_open 3 ''again'' ''Bar'' Stampla_IN (stamp (2024, 3, 5) 10 0) = Inr ex_open"
proof -
  have a: "punches ex_seed = []"
    by (simp add: ex_seed_def ensure_seed_admin_def init_db_def)
  have b: "open_punches ex_open 3 \<noteq> []"
    by (simp add: ex_open_eq open_punches_def)
  from a b one_open_punch_per_worker[where ?d0.0 = ex_seed and uid = 3 and d = ex_open]
  show ?thesis by blast
qed

section \<open>Adjusting a punch\<close>

lemma adjust_ok:
  "int64 i \<Longrightarrow> a \<noteq> Malformed \<Longrightarrow> c \<noteq> Malformed \<Longrightarrow>
   adjust d (Given i) a c ap = Inr (d\<lparr>punches :=
     update_punch i (\<lambda>p. p\<lparr>approved := (if ap then 1 else 0)\<rparr>)
       ((case c of Given t \<Rightarrow> update_punch i (\<lambda>p. p\<lparr>clock_out := Some t\<rparr>) | _ \<Rightarrow> (\<lambda>ps. ps))
          ((case a of Given t \<Rightarrow> update_punch i (\<lambda>p. p\<lparr>clock_in := t\<rparr>) | _ \<Rightarrow> (\<lambda>ps. ps))
             (punches d)))\<rparr>)"
  by (cases a; cases c)
     (auto simp: adjust_def and_then_def to_int_def to_datetime_def execute_update_def)

lemma update_punch_twice:
  "update_punch i f (update_punch i g ps) =
   update_punch i (\<lambda>p. if p_id (g p) = i then f (g p) else g p) ps"
  by (induction ps) (simp_all add: update_punch_def)

section \<open>C1: adjust with no fields supplied\<close>

text \<open>Counterexample to C1 as stated: the approved punch 1 is adjusted with no new
  clock-in, no new clock-out and the approve box not ticked. The record comes back
  unapproved: the result is the state before the approval.\<close>

theorem adjust_no_fields_counterexample:
  "adjust ex_approved (Given 1) Blank Blank False = Inr ex_closed
   \<and> map approved (punches ex_approved) = [1]
   \<and> map approved (punches ex_closed) = [0]"
  by (simp add: ex_approved_eq ex_closed_eq adjust_ok int64_def update_punch_def)

text \<open>C1 (amended): adjust with no new clock-in, no new clock-out and approve not set
  leaves the owner, clock-in, clock-out, note and location of the record (and every other
  record) unchanged and writes approved = 0; the record is identical to its state before
  the call when it was unapproved before.\<close>

theorem adjust_no_fields:
  "int64 i \<Longrightarrow>
   adjust d (Given i) Blank Blank False
     = Inr (d\<lparr>punches := map (\<lambda>p. if p_id p = i then p\<lparr>approved := 0\<rparr> else p) (punches d)\<rparr>)
   \<and> ((\<forall>p \<in> set (punches d). p_id p = i \<longrightarrow> approved p = 0)
        \<longrightarrow> adjust d (Given i) Blank Blank False = Inr d)"
proof -
  assume i: "int64 i"
  have 1: "adjust d (Given i) Blank Blank False
     = Inr (d\<lparr>punches := map (\<lambda>p. if p_id p = i then p\<lparr>approved := 0\<rparr> else p) (punches d)\<rparr>)"
    using i by (simp add: adjust_ok update_punch_def)
  have 2: "adjust d (Given i) Blank Blank False = Inr d"
    if h: "\<forall>p \<in> set (punches d). p_id p = i \<longrightarrow> approved p = 0"
  proof -
    have "map (\<lambda>p. if p_id p = i then p\<lparr>approved := 0\<rparr> else p) (punches d) = punches d"
      by (rule map_idI) (use h in auto)
    with 1 show ?thesis by simp
  qed
  from 1 2 show ?thesis by blast
qed

text \<open>Witness: the approved and the unapproved example punch.\<close>

theorem adjust_no_fields_witness:
  "adjust ex_approved (Given 1) Blank Blank False
     = Inr (ex_approved\<lparr>punches := map (\<lambda>p. if p_id p = 1 then p\<lparr>approved := 0\<rparr> else p)
                                     (punches ex_approved)\<rparr>)
   \<and> adjust ex_closed (Given 1) Blank Blank False = Inr ex_closed"
proof -
  have i: "int64 1" by (simp add: int64_def)
  have u: "\<forall>p \<in> set (punches ex_closed). p_id p = 1 \<longrightarrow> approved p = 0"
    by (simp add: ex_closed_eq)
  from adjust_no_fields[OF i, of ex_approved] adjust_no_fields[OF i, of ex_closed] u
  show ?thesis by blast
qed

section \<open>C2: transitions of the approved flag\<close>

text \<open>Counterexample to C2 as stated: one approval page run by a manager, with the
  approve box not ticked, takes the approved punch 1 back to unapproved.\<close>

theorem approved_reset_counterexample:
  "step ex_approved (Approvals Manager (2024, 3, 4) (2024, 3, 5) (Given 1) Blank Blank False)
     = ex_closed
   \<and> map approved (punches ex_approved) = [1]
   \<and> map approved (punches ex_closed) = [0]"
  by (simp add: ex_approved_eq ex_closed_eq step_def approvals_view_def adjust_ok int64_def
        update_punch_def ex_defs)

lemma clock_view_cases:
  assumes "clock_view d uid nt loc b now = Inr d'"
  shows "d' = d
    \<or> (\<exists>i. active_punch d uid = Some i \<and> b = Stampla_UT
          \<and> d' = d\<lparr>punches := update_punch i (close_punch now nt loc) (punches d)\<rparr>)
    \<or> (active_punch d uid = None \<and> b = Stampla_IN
          \<and> d' = d\<lparr>punches := punches d @
               [\<lparr>p_id = punches_seq d + 1, user_id = uid, clock_in = now,
                 clock_out = None, p_note = Some nt, p_location = Some loc, approved = 0\<rparr>],
               punches_seq := punches_seq d + 1\<rparr>)"
  using assms
  by (cases "active_punch d uid") (auto simp: clock_view_def update_punch_def split: if_splits)

lemma map_approved_update:
  "map approved (update_punch i f ps) = map (\<lambda>p. if p_id p = i then approved (f p) else approved p) ps"
  by (induction ps) (simp_all add: update_punch_def)

text \<open>C2 (amended): clock-in and clock-out never change the approved flag of an existing
  record, and a new record starts unapproved; adjust writes the flag of the selected
  record from its approve input (1 when set, 0 when not set, whatever it was before) and
  leaves the flag of every other record; an Employee's approval page run changes
  nothing.\<close>

theorem approved_flag_follows_adjust:
  "(clock_view d uid nt loc b now = Inr d1 \<longrightarrow>
      map approved (take (length (punches d)) (punches d1)) = map approved (punches d)
      \<and> list_all (\<lambda>p. approved p = 0) (drop (length (punches d)) (punches d1)))
   \<and> (adjust d (Given i) a c ap = Inr d2 \<longrightarrow>
      map approved (punches d2)
        = map (\<lambda>p. if p_id p = i then (if ap then 1 else 0) else approved p) (punches d))
   \<and> approvals_view d Employee d_from d_to sel a c ap = Inr d"
proof -
  have clock: "map approved (take (length (punches d)) (punches d1)) = map approved (punches d)
      \<and> list_all (\<lambda>p. approved p = 0) (drop (length (punches d)) (punches d1))"
    if "clock_view d uid nt loc b now = Inr d1"
  proof -
    from clock_view_cases[OF that]
    consider "d1 = d"
      | j where "d1 = d\<lparr>punches := update_punch j (close_punch now nt loc) (punches d)\<rparr>"
      | "d1 = d\<lparr>punches := punches d @
                 [\<lparr>p_id = punches_seq d + 1, user_id = uid, clock_in = now,
                   clock_out = None, p_note = Some nt, p_location = Some loc, approved = 0\<rparr>],
                 punches_seq := punches_seq d + 1\<rparr>"
      by blast
    then show ?thesis
    proof cases
      case 1
      then show ?thesis by simp
    next
      case 2
      then show ?thesis by (simp add: update_punch_def close_punch_def)
    next
      case 3
      then show ?thesis by simp
    qed
  qed
  have adj: "map approved (punches d2)
        = map (\<lambda>p. if p_id p = i then (if ap then 1 else 0) else approved p) (punches d)"
    if "adjust d (Given i) a c ap = Inr d2"
    using adjust_Given[OF that]
    by (cases a; cases c) (simp_all add: update_punch_twice map_approved_update)
  have emp: "approvals_view d Employee d_from d_to sel a c ap = Inr d"
    by (simp add: approvals_view_def)
  from clock adj emp show ?thesis by blast
qed

text \<open>Witness: Erik's clock-out, the adjust that resets the flag, an Employee's attempt.\<close>

theorem approved_flag_follows_adjust_witness:
  "map approved (take (length (punches ex_open)) (punches ex_closed)) = map approved (punches ex_open)
   \<and> list_all (\<lambda>p. approved p = 0) (drop (length (punches ex_open)) (punches ex_closed))
   \<and> map approved (punches ex_closed)
        = map (\<lambda>p. if p_id p = 1 then (if False then 1 else 0) else approved p) (punches ex_approved)
   \<and> approvals_view ex_closed Employee (2024, 3, 4) (2024, 3, 5) (Given 1) Blank Blank True
        = Inr ex_closed"
proof -
  have 1: "clock_view ex_open 3 ''done'' [] Stampla_UT (stamp (2024, 3, 5) 18 0) = Inr ex_closed"
    by (simp add: ex_open_eq ex_closed_eq clock_view_def active_punch_def open_punches_def
          close_punch_def coalesce_def appended_def)
  have 2: "adjust ex_approved (Given 1) Blank Blank False = Inr ex_closed"
    by (simp add: ex_approved_eq ex_closed_eq adjust_ok int64_def update_punch_def)
  from 1 approved_flag_follows_adjust[of ex_open 3 "''done''" "[]" Stampla_UT
         "stamp (2024, 3, 5) 18 0" ex_closed]
  have a: "map approved (take (length (punches ex_open)) (punches ex_closed)) = map approved (punches ex_open)
   \<and> list_all (\<lambda>p. approved p = 0) (drop (length (punches ex_open)) (punches ex_closed))"
    by blast
  from 2 approved_flag_follows_adjust[of ex_approved _ _ _ _ _ _ 1 Blank Blank False ex_closed]
  have b: "map approved (punches ex_closed)
        = map (\<lambda>p. if p_id p = 1 then (if False then 1 else 0) else approved p) (punches ex_approved)"
    by blast
  from approved_flag_follows_adjust[of ex_closed _ _ _ _ _ _ _ Blank Blank True _ "(2024, 3, 4)" "(2024, 3, 5)" "Given 1"]
  have c: "approvals_view ex_closed Employee (2024, 3, 4) (2024, 3, 5) (Given 1) Blank Blank True
        = Inr ex_closed"
    by blast
  from a b c show ?thesis by blast
qed

section \<open>C3: the order of the two times\<close>

lemma adjust_error:
  assumes "adjust d sel a c ap = Inl e"
  shows "sel = Malformed \<or> a = Malformed \<or> c = Malformed \<or> (\<exists>j. sel = Given j \<and> \<not> int64 j)"
proof (cases sel)
  case Blank
  with assms show ?thesis by (simp add: adjust_def)
next
  case Malformed
  then show ?thesis by simp
next
  case (Given j)
  show ?thesis
  proof (rule ccontr)
    assume "\<not> ?thesis"
    with Given have "int64 j" "a \<noteq> Malformed" "c \<noteq> Malformed" by simp_all
    from adjust_ok[OF this] assms Given show False by simp
  qed
qed

text \<open>Counterexample to C3 as stated: punch 1 runs from 09:00 to 18:00; an adjust with the
  new clock-out 08:00 of the same day succeeds and stores it, so the closed record has its
  clock-out before its clock-in.\<close>

theorem adjust_order_counterexample:
  "adjust ex_closed (Given 1) Blank (Given (stamp (2024, 3, 5) 8 0)) False
     = Inr (ex_closed\<lparr>punches :=
              map (\<lambda>p. p\<lparr>clock_out := Some (stamp (2024, 3, 5) 8 0)\<rparr>) (punches ex_closed)\<rparr>)
   \<and> map clock_in (punches ex_closed) = [stamp (2024, 3, 5) 9 0]
   \<and> to_usec (stamp (2024, 3, 5) 8 0) < to_usec (stamp (2024, 3, 5) 9 0)"
  by (simp add: ex_closed_eq adjust_ok int64_def update_punch_def to_usec_def stamp_def)

text \<open>C3 (amended): adjust does not compare the two times. With a row id inside 64 bits
  it succeeds whenever the supplied times are well formed and writes them as given, also
  when the resulting clock-out is earlier than the clock-in; it fails only on a malformed
  row id or time, or on a row id outside 64 bits.\<close>

theorem adjust_no_order_check:
  "(int64 i \<longrightarrow>
      adjust d (Given i) (Given t_in) (Given t_out) ap
        = Inr (d\<lparr>punches := map (\<lambda>p. if p_id p = i
                   then p\<lparr>clock_in := t_in, clock_out := Some t_out,
                          approved := (if ap then 1 else 0)\<rparr> else p) (punches d)\<rparr>)
      \<and> adjust d (Given i) Blank (Given t_out) ap
        = Inr (d\<lparr>punches := map (\<lambda>p. if p_id p = i
                   then p\<lparr>clock_out := Some t_out, approved := (if ap then 1 else 0)\<rparr>
                   else p) (punches d)\<rparr>)
      \<and> adjust d (Given i) (Given t_in) Blank ap
        = Inr (d\<lparr>punches := map (\<lambda>p. if p_id p = i
                   then p\<lparr>clock_in := t_in, approved := (if ap then 1 else 0)\<rparr>
                   else p) (punches d)\<rparr>))
   \<and> (adjust d sel a c ap = Inl e \<longrightarrow>
        sel = Malformed \<or> a = Malformed \<or> c = Malformed \<or> (\<exists>j. sel = Given j \<and> \<not> int64 j))"
proof -
  have 1: "adjust d (Given i) (Given t_in) (Given t_out) ap
        = Inr (d\<lparr>punches := map (\<lambda>p. if p_id p = i
                   then p\<lparr>clock_in := t_in, clock_out := Some t_out,
                          approved := (if ap then 1 else 0)\<rparr> else p) (punches d)\<rparr>)"
    if "int64 i"
    using that by (simp add: adjust_ok update_punch_def cong: if_cong)
  have 2: "adjust d (Given i) Blank (Given t_out) ap
        = Inr (d\<lparr>punches := map (\<lambda>p. if p_id p = i
                   then p\<lparr>clock_out := Some t_out, approved := (if ap then 1 else 0)\<rparr>
                   else p) (punches d)\<rparr>)"
    if "int64 i"
    using that by (simp add: adjust_ok update_punch_def cong: if_cong)
  have 3: "adjust d (Given i) (Given t_in) Blank ap
        = Inr (d\<lparr>punches := map (\<lambda>p. if p_id p = i
                   then p\<lparr>clock_in := t_in, approved := (if ap then 1 else 0)\<rparr>
                   else p) (punches d)\<rparr>)"
    if "int64 i"
    using that by (simp add: adjust_ok update_punch_def cong: if_cong)
  from 1 2 3 adjust_error[of d sel a c ap e] show ?thesis by blast
qed

text \<open>Witness: the inverted times 18:00 to 08:00 are written as given; a malformed
  clock-out is the only thing that makes the call fail.\<close>

theorem adjust_no_order_check_witness:
  "adjust ex_closed (Given 1) (Given (stamp (2024, 3, 5) 18 0)) (Given (stamp (2024, 3, 5) 8 0)) True
     = Inr (ex_closed\<lparr>punches := map (\<lambda>p. if p_id p = 1
              then p\<lparr>clock_in := stamp (2024, 3, 5) 18 0,
                     clock_out := Some (stamp (2024, 3, 5) 8 0),
                     approved := (if True then 1 else 0)\<rparr> else p) (punches ex_closed)\<rparr>)
   \<and> adjust ex_closed (Given 1) Blank Malformed True = Inl ValueError"
proof -
  have i: "int64 1" by (simp add: int64_def)
  have e: "adjust ex_closed (Given 1) Blank Malformed True = Inl ValueError"
    by (simp add: adjust_def and_then_def to_datetime_def)
  from i e adjust_no_order_check[of 1 ex_closed "stamp (2024, 3, 5) 18 0" "stamp (2024, 3, 5) 8 0" True
        "Given 1" Blank Malformed ValueError]
  show ?thesis by blast
qed

section \<open>C4: creating a worker\<close>

text \<open>Counterexample to C4 as stated: the seeded directory holds Anna with PIN 1111; a new
  worker bob is created with the same PIN. The call succeeds and appends the row.\<close>

theorem create_duplicate_pin_counterexample:
  "staff_view (\<lambda>s. s) ex_seed Admin Ny ''bob'' ''Bob Berg'' Employee 150 ''1111'' ''pw''
     = Inr (ex_seed\<lparr>users := users ex_seed @
              [\<lparr>u_id = 4, username = ''bob'', full_name = ''Bob Berg'', password_hash = ''pw'',
                role = Employee, hourly_rate = 150, pin = Some ''1111''\<rparr>],
              users_seq := 4\<rparr>)
   \<and> map pin (users ex_seed) = [Some ''0000'', Some ''1111'', Some ''2222'']"
  by (simp add: ex_seed_def ensure_seed_admin_def init_db_def staff_view_def insert_user_def
        or_none_def)

text \<open>C4 (amended): creating a worker fails, with the directory unchanged, exactly when
  the username already exists; the PIN is not checked: with a new username the call
  succeeds for every PIN, also one that belongs to another worker, appends the new row
  with that PIN and modifies no existing row.\<close>

theorem create_checks_username_only:
  "(un \<notin> set (map username (users d)) \<longrightarrow>
      staff_view sha d Admin Ny un fn r h pn pw
        = Inr (d\<lparr>users := users d @
                 [\<lparr>u_id = users_seq d + 1, username = un, full_name = fn,
                   password_hash = sha (if pw = [] then ''changeme'' else pw), role = r,
                   hourly_rate = h, pin = or_none pn\<rparr>],
                 users_seq := users_seq d + 1\<rparr>))
   \<and> (un \<in> set (map username (users d)) \<longrightarrow>
      staff_view sha d Admin Ny un fn r h pn pw = Inl IntegrityError)"
  by (simp add: staff_view_def insert_user_def)

text \<open>Witness: a new username with Anna's PIN, and Erik's username with a fresh PIN.\<close>

theorem create_checks_username_only_witness:
  "staff_view (\<lambda>s. s) ex_seed Admin Ny ''bob'' ''Bob Berg'' Employee 150 ''1111'' ''pw''
     = Inr (ex_seed\<lparr>users := users ex_seed @
              [\<lparr>u_id = users_seq ex_seed + 1, username = ''bob'', full_name = ''Bob Berg'',
                password_hash = (if ''pw'' = [] then ''changeme'' else ''pw''),
                role = Employee, hourly_rate = 150, pin = or_none ''1111''\<rparr>],
              users_seq := users_seq ex_seed + 1\<rparr>)
   \<and> staff_view (\<lambda>s. s) ex_seed Admin Ny ''erik'' ''Erik Two'' Employee 150 ''9999'' ''pw''
     = Inl IntegrityError"
proof -
  have a: "''bob'' \<notin> set (map username (users ex_seed))"
    by (simp add: ex_seed_def ensure_seed_admin_def init_db_def)
  have b: "''erik'' \<in> set (map username (users ex_seed))"
    by (simp add: ex_seed_def ensure_seed_admin_def init_db_def)
  from a b
    create_checks_username_only[of "''bob''" ex_seed "\<lambda>s. s" "''Bob Berg''" Employee 150 "''1111''" "''pw''"]
    create_checks_username_only[of "''erik''" ex_seed "\<lambda>s. s" "''Erik Two''" Employee 150 "''9999''" "''pw''"]
  show ?thesis by blast
qed

section \<open>C9: clock-out appends note and location\<close>

lemma fold_max_in: "fold max xs (x::int) \<in> set (x # xs)"
proof (induction xs arbitrary: x)
  case Nil
  then show ?case by simp
next
  case (Cons y ys)
  from Cons.IH[of "max y x"] show ?case by (auto simp: max_def split: if_splits)
qed

lemma active_punch_open:
  assumes "active_punch d uid = Some i"
  shows "i \<in> p_id ` set (open_punches d uid)"
proof (cases "open_punches d uid")
  case Nil
  with assms show ?thesis by (simp add: active_punch_def)
next
  case (Cons p ps)
  with assms have "i = fold max (map p_id ps) (p_id p)" by (simp add: active_punch_def)
  with fold_max_in[of "map p_id ps" "p_id p"] Cons show ?thesis by auto
qed

text \<open>C9: when the worker has an open punch, clock-out succeeds; the punch it closes is
  an open punch of that worker; in the closed record the clock-out is the current time,
  the note is the prior note followed by the supplied note (after a newline; nothing is
  added for an empty input), the location likewise, and the owner, the clock-in and the
  approved flag are as before; every other record is untouched.\<close>

theorem clock_out_appends:
  "active_punch d uid = Some i \<Longrightarrow>
   clock_view d uid nt loc Stampla_UT now
     = Inr (d\<lparr>punches := map (\<lambda>p. if p_id p = i
              then p\<lparr>clock_out := Some now,
                     p_note := Some (coalesce (p_note p) @ (if nt = [] then [] else CHR 0x0A # nt)),
                     p_location := Some (coalesce (p_location p)
                                          @ (if loc = [] then [] else CHR 0x0A # loc))\<rparr>
              else p) (punches d)\<rparr>)
   \<and> (\<exists>p \<in> set (punches d). p_id p = i \<and> user_id p = uid \<and> clock_out p = None)
   \<and> take (length (coalesce (p_note q))) (coalesce (p_note q) @ (if nt = [] then [] else CHR 0x0A # nt))
        = coalesce (p_note q)
   \<and> drop (length (coalesce (p_note q) @ (if nt = [] then [] else CHR 0x0A # nt)) - length nt)
          (coalesce (p_note q) @ (if nt = [] then [] else CHR 0x0A # nt)) = nt"
proof -
  assume a: "active_punch d uid = Some i"
  then have 1: "clock_view d uid nt loc Stampla_UT now
     = Inr (d\<lparr>punches := map (\<lambda>p. if p_id p = i
              then p\<lparr>clock_out := Some now,
                     p_note := Some (coalesce (p_note p) @ (if nt = [] then [] else CHR 0x0A # nt)),
                     p_location := Some (coalesce (p_location p)
                                          @ (if loc = [] then [] else CHR 0x0A # loc))\<rparr>
              else p) (punches d)\<rparr>)"
    by (simp add: clock_view_def close_punch_def appended_def)
  from active_punch_open[OF a]
  have 2: "\<exists>p \<in> set (punches d). p_id p = i \<and> user_id p = uid \<and> clock_out p = None"
    by (auto simp: open_punches_def)
  from 1 2 show ?thesis by simp
qed

text \<open>Witness: Erik's clock-out with the note done and no location text. The note prep
  becomes prep, newline, done; the location Bar stays Bar.\<close>

theorem clock_out_appends_witness:
  "clock_view ex_open 3 ''done'' [] Stampla_UT (stamp (2024, 3, 5) 18 0)
     = Inr (ex_open\<lparr>punches := map (\<lambda>p. if p_id p = 1
              then p\<lparr>clock_out := Some (stamp (2024, 3, 5) 18 0),
                     p_note := Some (coalesce (p_note p) @ ''\<newline>done''),
                     p_location := Some (coalesce (p_location p))\<rparr>
              else p) (punches ex_open)\<rparr>)
   \<and> map p_note (punches ex_closed) = [Some ''prep\<newline>done'']
   \<and> map p_location (punches ex_closed) = [Some ''Bar'']"
proof -
  have a: "active_punch ex_open 3 = Some 1"
    by (simp add: ex_open_eq active_punch_def open_punches_def)
  from clock_out_appends[OF a, of "''done''" "[]" "stamp (2024, 3, 5) 18 0"]
  show ?thesis by (simp add: ex_closed_eq)
qed

section \<open>The report, row by row\<close>



lemma daily_key_row: "daily_key (daily_row k g) = k"
  by (simp add: daily_key_def daily_row_def Let_def)


lemma group_fst:
  "map fst (group_rows k (keyed_rows (map (\<lambda>p. (p, F p)) ps)))
     = filter (\<lambda>p. case F p of None \<Rightarrow> False | Some u \<Rightarrow> (full_name u, dt_date (clock_in p)) = k) ps"
proof (induction ps)
  case Nil
  then show ?case by (simp add: group_rows_def keyed_rows_def)
next
  case (Cons p ps)
  have step: "keyed_rows (map (\<lambda>p. (p, F p)) (p # ps))
      = (case F p of None \<Rightarrow> [] | Some u \<Rightarrow> [(p, u)]) @ keyed_rows (map (\<lambda>p. (p, F p)) ps)"
    by (simp add: keyed_rows_def split: option.split)
  from Cons show ?case unfolding step
    by (cases "F p") (simp_all add: group_rows_def row_key_def)
qed

lemma group_rate:
  "map (\<lambda>r. hourly_rate (snd r)) (group_rows k (keyed_rows (map (\<lambda>p. (p, F p)) ps)))
     = map (\<lambda>p. case F p of None \<Rightarrow> 0 | Some u \<Rightarrow> hourly_rate u)
         (filter (\<lambda>p. case F p of None \<Rightarrow> False | Some u \<Rightarrow> (full_name u, dt_date (clock_in p)) = k) ps)"
proof (induction ps)
  case Nil
  then show ?case by (simp add: group_rows_def keyed_rows_def)
next
  case (Cons p ps)
  have step: "keyed_rows (map (\<lambda>p. (p, F p)) (p # ps))
      = (case F p of None \<Rightarrow> [] | Some u \<Rightarrow> [(p, u)]) @ keyed_rows (map (\<lambda>p. (p, F p)) ps)"
    by (simp add: keyed_rows_def split: option.split)
  from Cons show ?case unfolding step
    by (cases "F p") (simp_all add: group_rows_def row_key_def)
qed

lemma group_punches_fst:
  "map fst (group_rows k (keyed_rows (select_punches d f t))) = group_punches d f t k"
  by (simp add: select_punches_def group_fst group_punches_def conj_commute)

lemma group_punches_rate:
  "map (\<lambda>r. hourly_rate (snd r)) (group_rows k (keyed_rows (select_punches d f t)))
     = map (owner_rate d) (group_punches d f t k)"
  by (simp add: select_punches_def group_rate group_punches_def owner_rate_def conj_commute)

lemma daily_row_group:
  "daily_row k (group_rows k (keyed_rows (select_punches d f t)))
     = (let h = sum_list (map punch_hours (group_punches d f t k));
            rate = Max (owner_rate d ` set (group_punches d f t k));
            ot = max 0 (h - 8);
            reg = h - ot
        in \<lparr>d_full_name = fst k, d_date = snd k, d_hours = h, d_hourly_rate = rate,
            d_ot_hours = ot, d_reg_hours = reg, d_pay = reg * rate + ot * rate * (3 / 2)\<rparr>)"
proof -
  have h: "map (\<lambda>r. punch_hours (fst r)) (group_rows k (keyed_rows (select_punches d f t)))
      = map punch_hours (group_punches d f t k)"
    using group_punches_fst[of k d f t, symmetric] by (simp add: o_def)
  have r: "set (map (\<lambda>r. hourly_rate (snd r)) (group_rows k (keyed_rows (select_punches d f t))))
      = owner_rate d ` set (group_punches d f t k)"
    by (simp only: group_punches_rate set_map)
  show ?thesis
    unfolding daily_row_def h r ..
qed

lemma reports_view_rows:
  "reports_view d f t
     = map (\<lambda>k. daily_row k (group_rows k (keyed_rows (select_punches d f t))))
         (group_keys (keyed_rows (select_punches d f t)))"
  by (simp add: reports_view_def Let_def)

lemma report_row_key:
  assumes "r \<in> set (reports_view d f t)"
  shows "r = daily_row (daily_key r) (group_rows (daily_key r) (keyed_rows (select_punches d f t)))
         \<and> daily_key r \<in> row_key ` set (keyed_rows (select_punches d f t))"
proof -
  from assms obtain k where k: "k \<in> set (group_keys (keyed_rows (select_punches d f t)))"
    and r: "r = daily_row k (group_rows k (keyed_rows (select_punches d f t)))"
    by (auto simp: reports_view_rows)
  from r have "daily_key r = k" by (simp add: daily_key_row)
  with k r show ?thesis by (simp add: group_keys_def)
qed


section \<open>The example reports, evaluated\<close>

lemmas time_defs = in_range_def combine_min_iso_def sqlite_datetime_def sqlite_datetime_plus_day_def
  iso_date_def hms_def pad2_def pad4_def digit_def next_day_def days_in_month_def is_leap_def

lemma in_range_ex1:
  "in_range (2024, 3, 4) (2024, 3, 5) (stamp (2024, 3, 5) 9 0)"
  by (simp add: time_defs stamp_def)


lemma round2_zero: "round2 0 = 0"
  by (simp add: round2_def round_half_even_def)




lemma users_ex_seed:
  "users ex_seed =
     [\<lparr>u_id = 1, username = ''admin'', full_name = ''System Admin'',
       password_hash = ''admin123'', role = Admin, hourly_rate = 0, pin = Some ''0000''\<rparr>,
      \<lparr>u_id = 2, username = ''anna'', full_name = ''Anna Andersson'',
       password_hash = ''chef123'', role = Manager, hourly_rate = 165, pin = Some ''1111''\<rparr>,
      \<lparr>u_id = 3, username = ''erik'', full_name = ''Erik Ek'',
       password_hash = ''server123'', role = Employee, hourly_rate = 145, pin = Some ''2222''\<rparr>]"
  by (simp add: ex_seed_def ensure_seed_admin_def init_db_def)

lemma find_user_ex_open:
  "find_user ex_open 3 = Some \<lparr>u_id = 3, username = ''erik'', full_name = ''Erik Ek'',
       password_hash = ''server123'', role = Employee, hourly_rate = 145, pin = Some ''2222''\<rparr>"
  by (simp add: find_user_def ex_open_eq users_ex_seed)


lemma punches_ex_open:
  "punches ex_open = [\<lparr>p_id = 1, user_id = 3, clock_in = stamp (2024, 3, 5) 9 0,
      clock_out = None, p_note = Some ''prep'', p_location = Some ''Bar'', approved = 0\<rparr>]"
  by (simp add: ex_open_eq)


lemma date_stamp: "dt_date (stamp d h m) = d"
  by (simp add: stamp_def)

lemma keyed_ex_open:
  "keyed_rows (select_punches ex_open (2024, 3, 4) (2024, 3, 5))
     = [(\<lparr>p_id = 1, user_id = 3, clock_in = stamp (2024, 3, 5) 9 0,
      clock_out = None, p_note = Some ''prep'', p_location = Some ''Bar'', approved = 0\<rparr>,
        \<lparr>u_id = 3, username = ''erik'', full_name = ''Erik Ek'',
       password_hash = ''server123'', role = Employee, hourly_rate = 145, pin = Some ''2222''\<rparr>)]"
  by (simp add: select_punches_def keyed_rows_def punches_ex_open in_range_ex1 find_user_ex_open)

lemma report_ex_open:
  "reports_view ex_open (2024, 3, 4) (2024, 3, 5)
     = [\<lparr>d_full_name = ''Erik Ek'', d_date = (2024, 3, 5), d_hours = 0, d_hourly_rate = 145,
         d_ot_hours = 0, d_reg_hours = 0, d_pay = 0\<rparr>]"
  by (simp add: reports_view_def keyed_ex_open group_keys_def row_key_def date_stamp
        group_rows_def daily_row_def punch_hours_def round2_zero)



section \<open>C6: the rows of the report\<close>







section \<open>C7: open punches in the totals\<close>

lemma punch_hours_open: "clock_out p = None \<Longrightarrow> punch_hours p = 0"
  by (simp add: punch_hours_def round2_zero)

lemma sum_closed_only:
  "sum_list (map punch_hours ps) = sum_list (map punch_hours (filter (\<lambda>p. clock_out p \<noteq> None) ps))"
  by (induction ps) (simp_all add: punch_hours_open)

lemma report_row_hours:
  assumes "r \<in> set (reports_view d f t)"
  shows "d_hours r = sum_list (map punch_hours (group_punches d f t (daily_key r)))"
proof -
  from report_row_key[OF assms]
  have "r = daily_row (daily_key r) (group_rows (daily_key r) (keyed_rows (select_punches d f t)))"
    by simp
  then have "d_hours r = d_hours (daily_row (daily_key r)
      (group_rows (daily_key r) (keyed_rows (select_punches d f t))))"
    by simp
  then show ?thesis by (simp add: daily_row_group Let_def)
qed

text \<open>C7: a punch with a null clock-out has 0 hours, whatever its clock-in, and for every
  range the total of every report row is the sum over the closed punches of its group
  alone. The report takes no current time, so elapsed time cannot enter.\<close>

theorem open_punch_contributes_nothing:
  "(clock_out p = None \<longrightarrow> punch_hours p = 0)
   \<and> (\<forall>r \<in> set (reports_view d d_from d_to).
        d_hours r = sum_list (map punch_hours
          (filter (\<lambda>p. clock_out p \<noteq> None) (group_punches d d_from d_to (daily_key r)))))"
  using punch_hours_open report_row_hours sum_closed_only by metis


text \<open>Witness: Erik's open punch, and the row of the report over it.\<close>

theorem open_punch_contributes_nothing_witness:
  "punch_hours \<lparr>p_id = 1, user_id = 3, clock_in = stamp (2024, 3, 5) 9 0,
      clock_out = None, p_note = Some ''prep'', p_location = Some ''Bar'', approved = 0\<rparr> = 0
   \<and> d_hours \<lparr>d_full_name = ''Erik Ek'', d_date = (2024, 3, 5), d_hours = 0, d_hourly_rate = 145,
         d_ot_hours = 0, d_reg_hours = 0, d_pay = 0\<rparr>
     = sum_list (map punch_hours (filter (\<lambda>p. clock_out p \<noteq> None)
         (group_punches ex_open (2024, 3, 4) (2024, 3, 5) (''Erik Ek'', (2024, 3, 5)))))"
proof -
  let ?p = "\<lparr>p_id = 1, user_id = 3, clock_in = stamp (2024, 3, 5) 9 0,
      clock_out = None, p_note = Some ''prep'', p_location = Some ''Bar'', approved = 0\<rparr>"
  let ?r = "\<lparr>d_full_name = ''Erik Ek'', d_date = (2024, 3, 5), d_hours = 0, d_hourly_rate = 145,
         d_ot_hours = 0, d_reg_hours = 0, d_pay = 0\<rparr>"
  note T = open_punch_contributes_nothing[of ?p ex_open "(2024, 3, 4)" "(2024, 3, 5)"]
  have r: "?r \<in> set (reports_view ex_open (2024, 3, 4) (2024, 3, 5))"
    by (simp add: report_ex_open)
  have k: "daily_key ?r = (''Erik Ek'', (2024, 3, 5))"
    by (simp add: daily_key_def)
  have c: "clock_out ?p = None" by simp
  from T c have 1: "punch_hours ?p = 0" by blast
  from T r have "d_hours ?r = sum_list (map punch_hours (filter (\<lambda>p. clock_out p \<noteq> None)
         (group_punches ex_open (2024, 3, 4) (2024, 3, 5) (daily_key ?r))))"
    by blast
  then have 2: "d_hours ?r = sum_list (map punch_hours (filter (\<lambda>p. clock_out p \<noteq> None)
         (group_punches ex_open (2024, 3, 4) (2024, 3, 5) (''Erik Ek'', (2024, 3, 5)))))"
    by (simp only: k)
  from 1 2 show ?thesis by blast
qed

section \<open>C8: hours, overtime and pay of a row\<close>










section \<open>C10: workers who share a display name\<close>









section \<open>The lower bound of the range query\<close>

text \<open>The lower bound is ISO text with the separator T, the left side is SQLite's text with
  a space. Where the dates agree the comparison is decided by these two characters, and
  the space is the smaller one: a clock-in on the start date itself is never selected.\<close>

lemma append_le_append_same: "(xs @ ys \<le> xs @ zs) = (ys \<le> zs)" for ys :: string
  by (induction xs) simp_all

lemma start_date_not_selected: "dt_date t = d_from \<Longrightarrow> \<not> in_range d_from d_to t"
  by (simp add: in_range_def combine_min_iso_def sqlite_datetime_def append_le_append_same)

lemma start_date_not_selected_example:
  "\<not> in_range (2024, 3, 5) (2024, 3, 5) (stamp (2024, 3, 5) 9 0)
   \<and> reports_view ex_closed (2024, 3, 5) (2024, 3, 5) = []"
proof -
  have n: "\<not> in_range (2024, 3, 5) (2024, 3, 5) (stamp (2024, 3, 5) 9 0)"
    by (rule start_date_not_selected) (simp add: stamp_def)
  then have "select_punches ex_closed (2024, 3, 5) (2024, 3, 5) = []"
    by (simp add: select_punches_def ex_closed_eq)
  then have "reports_view ex_closed (2024, 3, 5) (2024, 3, 5) = []"
    by (simp add: reports_view_def keyed_rows_def group_keys_def)
  with n show ?thesis by simp
qed

end
